theory Spec2Isabelle
  imports Complex_Main
begin

section \<open>Python values and exceptions\<close>

text \<open>
  The exceptions the modelled code can meet. \<open>OtherError\<close> stands for every failure of
  an external collaborator (the session store, the HTTP client, Redis, the JSON decoder of
  the web framework, the orchestrator); all of them are subclasses of \<open>Exception\<close>.
\<close>

datatype exn = KeyError | IndexError | TypeError | AttributeError | OtherError

text \<open>
  \<open>random.choice(seq)\<close>: some element of a non-empty sequence, \<open>IndexError\<close> on an
  empty one. The random draw is an explicit argument \<open>r\<close>; the element chosen is the one
  at position \<open>r mod len(seq)\<close>, so every element can be chosen.
\<close>

definition random_choice :: "nat \<Rightarrow> 'a list \<Rightarrow> exn + 'a" where
  "random_choice r xs = (if xs = [] then Inl IndexError else Inr (xs ! (r mod length xs)))"

section \<open>agents/fallback_system.py\<close>

text \<open>
  The canned replies of \<open>FallbackManager.__init__\<close>. The source texts carry emoji; every
  code point outside printable ASCII is written \<open>?\<close> here, one per code point, so the
  lengths are those of the Python strings and distinct texts stay distinct.
\<close>

definition general_error_responses :: "string list" where
  "general_error_responses =
    [''Oops! Something went wrong on my end. ???? Could you please try again?'',
     ''I'm having a small technical hiccup. Please send your message again! ????'',
     ''Sorry about that! There was a brief issue. Could you resend your question? ????'']"

definition input_validation_error_responses :: "string list" where
  "input_validation_error_responses =
    [''I didn't quite catch that! ???? Could you please rephrase your question?'',
     ''Hmm, I'm not sure I understand. Could you tell me what you're looking for? ????'',
     ''Sorry, I couldn't understand that message. How can I help you today? ????'']"

definition agent_error_responses :: "string list" where
  "agent_error_responses =
    [''I'm having trouble processing that right now. ???? Could you try rephrasing your question?'',
     ''Let me try to help differently. What specific insurance information do you need? ???'',
     ''I want to make sure I give you the right help. Could you tell me more about what you're looking for? ????'']"

definition timeout_error_responses :: "string list" where
  "timeout_error_responses =
    [''Sorry for the delay! ??? I'm still here to help. What can I do for you?'',
     ''I'm back! ???? How can I assist you with your insurance needs?'',
     ''Thanks for your patience! What insurance question can I help you with? ????'']"

definition too_many_errors_responses :: "string list" where
  "too_many_errors_responses =
    [''I'm having some technical difficulties today. ???? For immediate assistance, please contact our support team at support@hlas.com.sg or call +65 6227 7888.'',
     ''I apologize for the repeated issues. ??? Our human agents can help you right away at support@hlas.com.sg or +65 6227 7888.'',
     ''Let me connect you with our support team for better assistance. ???? Please contact support@hlas.com.sg or call +65 6227 7888.'']"

definition off_topic_responses :: "string list" where
  "off_topic_responses =
    [''I specialize in helping with insurance questions! ???? What can I help you with regarding Travel, Maid, or Car insurance?'',
     ''I'm here to assist with your insurance needs. How can I help with Travel, Maid, or Car insurance today? ??????'',
     ''Let's talk insurance! I can help you with Travel, Maid, or Car insurance. What would you like to know? ????????????'']"

definition product_not_available_responses :: "string list" where
  "product_not_available_responses =
    [''I currently specialize in Travel, Maid, and Car insurance! ???? Which of these would be helpful for you?'',
     ''Right now I can help with Travel, Maid, and Car insurance. ???? Are any of these what you're looking for?'',
     ''I'm an expert in Travel, Maid, and Car insurance! ???????????? Would you like to know more about one of these?'']"

text \<open>The dictionary \<open>self.fallback_responses\<close>, in the order of the source.\<close>

definition fallback_responses :: "(string \<times> string list) list" where
  "fallback_responses =
    [(''general_error'', general_error_responses),
     (''input_validation_error'', input_validation_error_responses),
     (''agent_error'', agent_error_responses),
     (''timeout_error'', timeout_error_responses),
     (''too_many_errors'', too_many_errors_responses),
     (''off_topic'', off_topic_responses),
     (''product_not_available'', product_not_available_responses)]"

text \<open>
  \<open>self.fallback_responses.get(error_type, self.fallback_responses["general_error"])\<close>:
  the default is evaluated first and raises \<open>KeyError\<close> if the key were missing.
\<close>

definition responses_for :: "string \<Rightarrow> exn + string list" where
  "responses_for error_type =
    (case map_of fallback_responses ''general_error'' of
       None \<Rightarrow> Inl KeyError
     | Some dflt \<Rightarrow>
         (case map_of fallback_responses error_type of
            None \<Rightarrow> Inr dflt
          | Some rs \<Rightarrow> Inr rs))"

text \<open>\<open>self.escalation_triggers\<close>: the two numeric thresholds.\<close>

definition high_error_count :: int where
  "high_error_count = 5"

definition repeated_failures :: int where
  "repeated_failures = 3"

text \<open>The list inside \<open>get_escalation_response\<close> and the method itself.\<close>

definition escalation_responses :: "string list" where
  "escalation_responses =
    [''I'd like to connect you with our specialist team for better assistance. ???? Please contact support@hlas.com.sg or call +65 6227 7888.'',
     ''Let me get you in touch with our expert team! ???? Please reach out to support@hlas.com.sg or call +65 6227 7888.'',
     ''Our human specialists can provide you with personalized help. ???? Contact support@hlas.com.sg or call +65 6227 7888.'']"

definition get_escalation_response :: "nat \<Rightarrow> exn + string" where
  "get_escalation_response r = random_choice r escalation_responses"

text \<open>The reply of the \<open>except\<close> branch of \<open>get_fallback_response\<close>.\<close>

definition hardcoded_reply :: string where
  "hardcoded_reply =
    ''I'm here to help with your insurance needs! ???? What can I assist you with today?''"

subsection \<open>The session store\<close>

text \<open>
  Modelled from the spec: \<open>app.session_manager\<close> (\<open>get_session\<close>,
  \<open>increment_error_count\<close>) is imported by the fallback system but is not among the
  sources. The spec gives the Session Store interface
  \<open>get(session_id) -> SessionState\<close> and \<open>increment_error_count(session_id)\<close>, a
  \<open>SessionState\<close> with \<open>error_count: integer \<ge> 0\<close> that is created on first reference to
  a session id, and an increment of \<open>error_count\<close> by 1. It names session lookup failure
  as an internal error of the fallback manager; a store that is not \<open>reachable\<close> makes
  each of its operations raise.
\<close>

record SessionState =
  error_count :: int
  last_error :: "string option"

record session_store =
  sessions :: "string \<rightharpoonup> SessionState"
  reachable :: bool

definition new_session :: SessionState where
  "new_session = \<lparr>error_count = 0, last_error = None\<rparr>"

definition get_session :: "session_store \<Rightarrow> string \<Rightarrow> exn + (SessionState \<times> session_store)" where
  "get_session st sid =
    (if \<not> reachable st then Inl OtherError
     else case sessions st sid of
            Some s \<Rightarrow> Inr (s, st)
          | None \<Rightarrow> Inr (new_session, st\<lparr>sessions := (sessions st)(sid \<mapsto> new_session)\<rparr>))"

definition increment_error_count :: "session_store \<Rightarrow> string \<Rightarrow> exn + session_store" where
  "increment_error_count st sid =
    (case get_session st sid of
       Inl e \<Rightarrow> Inl e
     | Inr (s, st') \<Rightarrow>
         Inr (st'\<lparr>sessions := (sessions st')(sid \<mapsto> s\<lparr>error_count := error_count s + 1\<rparr>)\<rparr>))"

text \<open>The \<open>error_count\<close> a lookup of \<open>sid\<close> reads: 0 for a session not yet referenced.\<close>

definition error_count_of :: "session_store \<Rightarrow> string \<Rightarrow> int" where
  "error_count_of st sid =
    (case sessions st sid of None \<Rightarrow> 0 | Some s \<Rightarrow> error_count s)"

subsection \<open>FallbackManager\<close>

text \<open>
  \<open>should_escalate\<close>: the whole body is inside \<open>try\<close>; any exception gives \<open>False\<close>.
  The result carries the store, since the lookup may create the session. The calls of
  \<open>logger\<close> do not influence the result and are left out of the fallback manager's model.
\<close>

definition should_escalate :: "session_store \<Rightarrow> string \<Rightarrow> string \<Rightarrow> bool \<times> session_store" where
  "should_escalate st session_id error_type =
    (case get_session st session_id of
       Inl e \<Rightarrow> (False, st)
     | Inr (session, st') \<Rightarrow>
         (if error_count session \<ge> high_error_count then (True, st')
          else if error_type = ''agent_error'' \<and> error_count session \<ge> repeated_failures
               then (True, st')
          else (False, st')))"

text \<open>
  Python truthiness of the optional \<open>session_id\<close>: \<open>None\<close> and the empty string are
  falsy.
\<close>

fun truthy_session_id :: "string option \<Rightarrow> bool" where
  "truthy_session_id None = False"
| "truthy_session_id (Some s) = (s \<noteq> [])"

text \<open>
  \<open>get_fallback_response(error_type, session_id)\<close> with the random draw \<open>r\<close>; it returns
  the reply and the session store after the call. Every exception inside the \<open>try\<close>
  ends in the hardcoded reply; the store keeps what was written before the exception.
\<close>

definition get_fallback_response ::
  "nat \<Rightarrow> session_store \<Rightarrow> string \<Rightarrow> string option \<Rightarrow> string \<times> session_store" where
  "get_fallback_response r st error_type session_id =
    (case (if truthy_session_id session_id
           then should_escalate st (the session_id) error_type
           else (False, st)) of
       (escalate, st1) \<Rightarrow>
         if escalate then
           (case get_escalation_response r of
              Inl e \<Rightarrow> (hardcoded_reply, st1)
            | Inr response \<Rightarrow> (response, st1))
         else
           (case responses_for error_type of
              Inl e \<Rightarrow> (hardcoded_reply, st1)
            | Inr responses \<Rightarrow>
                (case random_choice r responses of
                   Inl e \<Rightarrow> (hardcoded_reply, st1)
                 | Inr response \<Rightarrow>
                     if truthy_session_id session_id then
                       (case increment_error_count st1 (the session_id) of
                          Inl e \<Rightarrow> (hardcoded_reply, st1)
                        | Inr st2 \<Rightarrow> (response, st2))
                     else (response, st1))))"

text \<open>
  Successive calls of \<open>get_fallback_response\<close> for one session: each element of the list
  is the random draw and the error category of one call. The replies are returned in call
  order with the store after the last call.
\<close>

fun respond_calls ::
  "session_store \<Rightarrow> string option \<Rightarrow> (nat \<times> string) list \<Rightarrow> string list \<times> session_store" where
  "respond_calls st session_id [] = ([], st)"
| "respond_calls st session_id ((r, error_type) # calls) =
    (case get_fallback_response r st error_type session_id of
       (reply, st') \<Rightarrow>
         (case respond_calls st' session_id calls of
            (replies, st'') \<Rightarrow> (reply # replies, st'')))"

section \<open>utils/whatsapp_handler.py\<close>

subsection \<open>Strings\<close>

text \<open>
  A Python \<open>str\<close> is a sequence of code points; the model takes the code points below
  256, one \<open>char\<close> each. On these, \<open>str.strip()\<close> and the class \<open>\s\<close> of \<open>re\<close> agree on
  the twelve whitespace characters below, and \<open>\d\<close> matches the ten ASCII digits only.
\<close>

definition is_space :: "char \<Rightarrow> bool" where
  "is_space c = ((of_char c :: nat) \<in> {9, 10, 11, 12, 13, 28, 29, 30, 31, 32, 133, 160})"

definition is_digit :: "char \<Rightarrow> bool" where
  "is_digit c = (48 \<le> (of_char c :: nat) \<and> (of_char c :: nat) \<le> 57)"

text \<open>\<open>s.strip()\<close>\<close>

definition py_strip :: "string \<Rightarrow> string" where
  "py_strip s = rev (dropWhile is_space (rev (dropWhile is_space s)))"

text \<open>
  \<open>re.sub(r'\s+', ' ', s)\<close>: every maximal run of whitespace is replaced by one space.
\<close>

function sub_whitespace :: "string \<Rightarrow> string" where
  "sub_whitespace [] = []"
| "sub_whitespace (c # cs) =
    (if is_space c then CHR '' '' # sub_whitespace (dropWhile is_space cs)
     else c # sub_whitespace cs)"
  by pat_completeness auto
termination
  by (relation "measure length") (auto simp: length_dropWhile_le less_Suc_eq_le)

text \<open>\<open>needle in haystack\<close> on strings: substring test.\<close>

fun starts_with :: "string \<Rightarrow> string \<Rightarrow> bool" where
  "starts_with [] s = True"
| "starts_with (c # cs) [] = False"
| "starts_with (c # cs) (d # ds) = (c = d \<and> starts_with cs ds)"

fun is_substring :: "string \<Rightarrow> string \<Rightarrow> bool" where
  "is_substring needle [] = (needle = [])"
| "is_substring needle (d # ds) = (starts_with needle (d # ds) \<or> is_substring needle ds)"

subsection \<open>Message and sender validation\<close>

definition max_message_length :: nat where
  "max_message_length = 4096"

definition rate_limit_window :: real where
  "rate_limit_window = 60"

definition rate_limit_max_messages :: nat where
  "rate_limit_max_messages = 10"

text \<open>\<open>validate_and_clean_message\<close> on a string argument.\<close>

definition validate_and_clean_message :: "string \<Rightarrow> string option" where
  "validate_and_clean_message message =
    (if message = [] then None
     else
       let message1 = sub_whitespace (py_strip message);
           message2 = (if length message1 > max_message_length
                       then take max_message_length message1 @ ''...''
                       else message1)
       in if length message2 < 1 then None else Some message2)"

text \<open>
  \<open>validate_phone_number\<close> on a string argument; \<open>re.sub(r'[^\d+]', '', phone)\<close> keeps
  the digits and every \<open>+\<close>.
\<close>

definition validate_phone_number :: "string \<Rightarrow> string option" where
  "validate_phone_number phone =
    (if phone = [] then None
     else
       let clean_phone = filter (\<lambda>c. is_digit c \<or> c = CHR ''+'') phone
       in if length clean_phone < 8 \<or> length clean_phone > 15 then None
          else Some clean_phone)"

subsection \<open>The spec's reading of message cleaning\<close>

text \<open>
  A second definition, following the words of the spec: "collapses internal whitespace
  runs to single spaces, trims ends". The words of a message are its maximal runs of
  characters that are not whitespace; the cleaned message of the spec is these words, in
  order, with one space between neighbours, so nothing but single spaces separates them
  and nothing stands before the first or after the last.
\<close>

function whitespace_words :: "string \<Rightarrow> string list" where
  "whitespace_words [] = []"
| "whitespace_words (c # cs) =
    (if is_space c then whitespace_words cs
     else (c # takeWhile (\<lambda>x. \<not> is_space x) cs)
            # whitespace_words (dropWhile (\<lambda>x. \<not> is_space x) cs))"
  by pat_completeness auto
termination
  by (relation "measure length") (auto simp: length_dropWhile_le less_Suc_eq_le)

fun join_space :: "string list \<Rightarrow> string" where
  "join_space [] = []"
| "join_space [w] = w"
| "join_space (w # v # ws) = w @ CHR '' '' # join_space (v # ws)"

definition spec_clean_message :: "string \<Rightarrow> string" where
  "spec_clean_message s = join_space (whitespace_words s)"

text \<open>A string that does not end in whitespace.\<close>

definition no_trailing_space :: "string \<Rightarrow> bool" where
  "no_trailing_space s = (s = [] \<or> \<not> is_space (last s))"

subsection \<open>Decoded JSON and the dynamic operations on it\<close>

text \<open>
  The value \<open>request.json()\<close> returns. A dictionary is an association list read with
  \<open>map_of\<close>; its keys are strings, as JSON object keys are.
\<close>

datatype json =
    JNull
  | JBool bool
  | JNum rat
  | JStr string
  | JList "json list"
  | JDict "(string \<times> json) list"

fun py_truthy :: "json \<Rightarrow> bool" where
  "py_truthy JNull = False"
| "py_truthy (JBool b) = b"
| "py_truthy (JNum n) = (n \<noteq> 0)"
| "py_truthy (JStr s) = (s \<noteq> [])"
| "py_truthy (JList xs) = (xs \<noteq> [])"
| "py_truthy (JDict kvs) = (kvs \<noteq> [])"

text \<open>\<open>x.get(k, d)\<close>: only a dictionary has the method.\<close>

fun py_get :: "json \<Rightarrow> string \<Rightarrow> json \<Rightarrow> exn + json" where
  "py_get (JDict kvs) k d = Inr (case map_of kvs k of Some v \<Rightarrow> v | None \<Rightarrow> d)"
| "py_get x k d = Inl AttributeError"

text \<open>A subscript: \<open>x['key']\<close> or \<open>x[i]\<close> with a non-negative integer literal.\<close>

datatype subscript = Key string | Idx nat

fun py_subscript :: "json \<Rightarrow> subscript \<Rightarrow> exn + json" where
  "py_subscript (JDict kvs) (Key k) =
     (case map_of kvs k of Some v \<Rightarrow> Inr v | None \<Rightarrow> Inl KeyError)"
| "py_subscript (JDict kvs) (Idx i) = Inl KeyError"
| "py_subscript (JList xs) (Idx i) = (if i < length xs then Inr (xs ! i) else Inl IndexError)"
| "py_subscript (JList xs) (Key k) = Inl TypeError"
| "py_subscript (JStr s) (Idx i) = (if i < length s then Inr (JStr [s ! i]) else Inl IndexError)"
| "py_subscript (JStr s) (Key k) = Inl TypeError"
| "py_subscript x sub = Inl TypeError"

text \<open>\<open>'key' in x\<close>\<close>

fun py_in :: "string \<Rightarrow> json \<Rightarrow> exn + bool" where
  "py_in k (JDict kvs) = Inr (k \<in> set (map fst kvs))"
| "py_in k (JList xs) = Inr (JStr k \<in> set xs)"
| "py_in k (JStr s) = Inr (is_substring k s)"
| "py_in k x = Inl TypeError"

fun is_list :: "json \<Rightarrow> bool" where
  "is_list (JList xs) = True"
| "is_list x = False"

text \<open>Sequencing of steps that may raise.\<close>

fun bind :: "exn + 'a \<Rightarrow> ('a \<Rightarrow> exn + 'b) \<Rightarrow> exn + 'b" where
  "bind (Inl e) f = Inl e"
| "bind (Inr x) f = f x"

text \<open>A chain of subscripts \<open>x[s1][s2]...\<close>, evaluated left to right.\<close>

fun py_path :: "json \<Rightarrow> subscript list \<Rightarrow> exn + json" where
  "py_path x [] = Inr x"
| "py_path x (s # ss) = bind (py_subscript x s) (\<lambda>y. py_path y ss)"

subsection \<open>extract\_message\_data\<close>

datatype log_level = DEBUG | INFO | WARNING | ERROR

text \<open>
  \<open>data.get('entry', [{}])[0].get('changes', [{}])[0].get('value', {})\<close>
\<close>

definition status_probe :: "json \<Rightarrow> exn + json" where
  "status_probe data =
    bind (py_get data ''entry'' (JList [JDict []])) (\<lambda>entries.
    bind (py_subscript entries (Idx 0)) (\<lambda>entry.
    bind (py_get entry ''changes'' (JList [JDict []])) (\<lambda>changes.
    bind (py_subscript changes (Idx 0)) (\<lambda>change.
    py_get change ''value'' (JDict [])))))"

text \<open>
  The inner \<open>try\<close> of the status branch: \<open>IndexError\<close> and \<open>KeyError\<close> are caught there,
  anything else leaves the branch. Both normal ends log at level info.
\<close>

definition status_update :: "json \<Rightarrow> exn + log_level list" where
  "status_update v =
    (case bind (py_path v [Key ''statuses'', Idx 0]) (\<lambda>status_info.
          bind (py_get status_info ''status'' (JStr ''unknown'')) (\<lambda>status.
          bind (py_get status_info ''recipient_id'' (JStr ''unknown'')) (\<lambda>recipient_id.
          Inr [INFO]))) of
       Inr logs \<Rightarrow> Inr logs
     | Inl e \<Rightarrow> if e = IndexError \<or> e = KeyError then Inr [INFO] else Inl e)"

text \<open>The three extraction patterns, in the order of the list.\<close>

definition pattern_standard :: "json \<Rightarrow> exn + json \<times> json" where
  "pattern_standard d =
    bind (py_path d [Key ''entry'', Idx 0, Key ''changes'', Idx 0, Key ''value'',
                     Key ''messages'', Idx 0, Key ''text'', Key ''body'']) (\<lambda>m.
    bind (py_path d [Key ''entry'', Idx 0, Key ''changes'', Idx 0, Key ''value'',
                     Key ''messages'', Idx 0, Key ''from'']) (\<lambda>u.
    Inr (m, u)))"

definition pattern_alternative1 :: "json \<Rightarrow> exn + json \<times> json" where
  "pattern_alternative1 d =
    bind (py_path d [Key ''entry'', Key ''changes'', Key ''value'', Key ''messages'',
                     Key ''text'', Key ''body'']) (\<lambda>m.
    bind (py_path d [Key ''entry'', Key ''changes'', Key ''value'', Key ''messages'',
                     Key ''from'']) (\<lambda>u.
    Inr (m, u)))"

definition pattern_alternative2 :: "json \<Rightarrow> exn + json \<times> json" where
  "pattern_alternative2 d =
    bind (py_path d [Key ''body'', Key ''text'']) (\<lambda>m.
    bind (py_path d [Key ''from'']) (\<lambda>u.
    Inr (m, u)))"

definition extraction_patterns :: "(json \<Rightarrow> exn + json \<times> json) list" where
  "extraction_patterns = [pattern_standard, pattern_alternative1, pattern_alternative2]"

text \<open>
  The \<open>for\<close> loop over the patterns. The pair \<open>(message, user_phone)\<close> is assigned whenever
  a pattern evaluates; the loop breaks when both are truthy; \<open>KeyError\<close>, \<open>IndexError\<close> and
  \<open>TypeError\<close> pass to the next pattern and any other exception leaves the loop.
\<close>

fun run_patterns ::
  "(json \<Rightarrow> exn + json \<times> json) list \<Rightarrow> json \<Rightarrow> json \<times> json \<Rightarrow> exn + json \<times> json" where
  "run_patterns [] d acc = Inr acc"
| "run_patterns (p # ps) d acc =
    (case p d of
       Inr (m, u) \<Rightarrow> if py_truthy m \<and> py_truthy u then Inr (m, u) else run_patterns ps d (m, u)
     | Inl e \<Rightarrow>
         if e = KeyError \<or> e = IndexError \<or> e = TypeError then run_patterns ps d acc
         else Inl e)"

text \<open>
  The body of the \<open>try\<close> that fills \<open>metadata\<close>; \<open>Inr (JDict [])\<close> when one of the
  conditions is false and \<open>metadata\<close> keeps its initial value.
\<close>

definition read_metadata :: "json \<Rightarrow> exn + json" where
  "read_metadata data =
    bind (py_in ''entry'' data) (\<lambda>has_entry.
    if \<not> has_entry then Inr (JDict []) else
    bind (py_subscript data (Key ''entry'')) (\<lambda>entries.
    if \<not> is_list entries then Inr (JDict []) else
    bind (py_path data [Key ''entry'', Idx 0]) (\<lambda>entry.
    bind (py_in ''changes'' entry) (\<lambda>has_changes.
    if \<not> has_changes then Inr (JDict []) else
    bind (py_subscript entry (Key ''changes'')) (\<lambda>changes.
    if \<not> is_list changes then Inr (JDict []) else
    bind (py_path entry [Key ''changes'', Idx 0]) (\<lambda>change.
    bind (py_in ''value'' change) (\<lambda>has_value.
    if \<not> has_value then Inr (JDict []) else
    bind (py_subscript change (Key ''value'')) (\<lambda>v.
    bind (py_in ''messages'' v) (\<lambda>has_messages.
    if \<not> has_messages then Inr (JDict []) else
    bind (py_path change [Key ''value'', Key ''messages'', Idx 0]) (\<lambda>msg_data.
    bind (py_get msg_data ''id'' JNull) (\<lambda>message_id.
    bind (py_get msg_data ''timestamp'' JNull) (\<lambda>timestamp.
    bind (py_get msg_data ''type'' (JStr ''text'')) (\<lambda>msg_type.
    bind (py_get v ''contacts'' (JList [JDict []])) (\<lambda>contacts.
    bind (py_subscript contacts (Idx 0)) (\<lambda>contact.
    bind (py_get contact ''profile'' (JDict [])) (\<lambda>profile.
    bind (py_get profile ''name'' (JStr ''Unknown'')) (\<lambda>from_name.
    Inr (JDict [(''message_id'', message_id), (''timestamp'', timestamp),
                (''type'', msg_type), (''from_name'', from_name)]))))))))))))))))))"

text \<open>
  What the two validators write to the log: \<open>validate_and_clean_message\<close> warns when the
  cleaned message is longer than the maximum, \<open>validate_phone_number\<close> warns when the
  stripped identifier has a length outside 8 to 15.
\<close>

definition validate_and_clean_message_log :: "string \<Rightarrow> log_level list" where
  "validate_and_clean_message_log message =
    (if message = [] then []
     else if length (sub_whitespace (py_strip message)) > max_message_length then [WARNING]
     else [])"

definition validate_phone_number_log :: "string \<Rightarrow> log_level list" where
  "validate_phone_number_log phone =
    (if phone = [] then []
     else
       let clean_phone = filter (\<lambda>c. is_digit c \<or> c = CHR ''+'') phone
       in if length clean_phone < 8 \<or> length clean_phone > 15 then [WARNING] else [])"

text \<open>
  The two validators applied to whatever the pattern produced: the value returned and the
  log lines written. On a truthy value that is not a string, \<open>message.strip()\<close> raises
  \<open>AttributeError\<close> and \<open>re.sub\<close> raises \<open>TypeError\<close>, before anything is logged; a falsy
  value gives \<open>None\<close>.
\<close>

fun validate_and_clean_message_dyn :: "json \<Rightarrow> exn + string option \<times> log_level list" where
  "validate_and_clean_message_dyn (JStr s) =
     Inr (validate_and_clean_message s, validate_and_clean_message_log s)"
| "validate_and_clean_message_dyn x = (if py_truthy x then Inl AttributeError else Inr (None, []))"

fun validate_phone_number_dyn :: "json \<Rightarrow> exn + string option \<times> log_level list" where
  "validate_phone_number_dyn (JStr s) = Inr (validate_phone_number s, validate_phone_number_log s)"
| "validate_phone_number_dyn x = (if py_truthy x then Inl TypeError else Inr (None, []))"

text \<open>
  The part of \<open>extract_message_data\<close> after the status check, for a payload without the
  status marker: the log lines written so far, and the exception or the returned triple.
  The message is validated before the sender, so a sender that makes \<open>re.sub\<close> raise
  leaves the lines of the message validation in the log.
\<close>

definition extract_user_message ::
  "json \<Rightarrow> log_level list \<times> (exn + string option \<times> string option \<times> json)" where
  "extract_user_message data =
    (case run_patterns extraction_patterns data (JNull, JNull) of
       Inl e \<Rightarrow> ([], Inl e)
     | Inr (message, user_phone) \<Rightarrow>
         if \<not> py_truthy message \<or> \<not> py_truthy user_phone
         then ([WARNING], Inr (None, None, JDict []))
         else
           (case (case read_metadata data of
                    Inl e \<Rightarrow> ([WARNING], JDict [])
                  | Inr md \<Rightarrow> ([], md)) of
              (logs, metadata) \<Rightarrow>
                (case validate_and_clean_message_dyn message of
                   Inl e \<Rightarrow> (logs, Inl e)
                 | Inr (message', logs1) \<Rightarrow>
                     (case validate_phone_number_dyn user_phone of
                        Inl e \<Rightarrow> (logs @ logs1, Inl e)
                      | Inr (user_phone', logs2) \<Rightarrow>
                          (logs @ logs1 @ logs2, Inr (message', user_phone', metadata))))))"

text \<open>
  The body of the outer \<open>try\<close>: the status check first, then the extraction.
\<close>

definition extract_body ::
  "json \<Rightarrow> log_level list \<times> (exn + string option \<times> string option \<times> json)" where
  "extract_body data =
    (case status_probe data of
       Inl e \<Rightarrow> ([], Inl e)
     | Inr v \<Rightarrow>
         (case py_in ''statuses'' v of
            Inl e \<Rightarrow> ([], Inl e)
          | Inr True \<Rightarrow>
              (case status_update v of
                 Inl e \<Rightarrow> ([], Inl e)
               | Inr logs \<Rightarrow> (logs, Inr (None, None, JDict [])))
          | Inr False \<Rightarrow> extract_user_message data))"

text \<open>
  \<open>extract_message_data\<close>: the returned triple and the log lines. The outer \<open>except\<close>
  turns every exception into \<open>(None, None, {})\<close> with a line at level error.
\<close>

definition extract_message_data ::
  "json \<Rightarrow> (string option \<times> string option \<times> json) \<times> log_level list" where
  "extract_message_data data =
    (case extract_body data of
       (logs, Inr res) \<Rightarrow> (res, logs)
     | (logs, Inl e) \<Rightarrow> ((None, None, JDict []), logs @ [ERROR]))"

text \<open>
  The spec's notions about a payload, for comparison with the code. A payload matches a
  shape when the shape's pattern evaluates without an exception to a non-empty message and
  a non-empty sender; \<open>first_match\<close> is what the first matching shape of the list yields.
  A payload has the status-update marker when the value reached by the status check has
  the member \<open>statuses\<close>.
\<close>

definition matches_shape :: "(json \<Rightarrow> exn + json \<times> json) \<Rightarrow> json \<Rightarrow> bool" where
  "matches_shape p d =
    (case p d of Inr (m, u) \<Rightarrow> py_truthy m \<and> py_truthy u | Inl e \<Rightarrow> False)"

definition first_match :: "json \<Rightarrow> (json \<times> json) option" where
  "first_match d =
    (case find (\<lambda>p. matches_shape p d) extraction_patterns of
       None \<Rightarrow> None
     | Some p \<Rightarrow> (case p d of Inr mu \<Rightarrow> Some mu | Inl e \<Rightarrow> None))"

definition has_status_marker :: "json \<Rightarrow> bool" where
  "has_status_marker data =
    (case status_probe data of
       Inr v \<Rightarrow> py_in ''statuses'' v = Inr True
     | Inl e \<Rightarrow> False)"

text \<open>
  Two payloads used below: a standard payload whose sender has five digits and a payload
  of the first alternative format.
\<close>

definition payload_standard_short_sender :: json where
  "payload_standard_short_sender =
    JDict [(''entry'', JList [JDict [(''changes'', JList [JDict [(''value'',
      JDict [(''messages'', JList [JDict [(''from'', JStr ''12345''),
               (''text'', JDict [(''body'', JStr ''hello'')])]])])]])]])]"

definition payload_alternative1 :: json where
  "payload_alternative1 =
    JDict [(''entry'', JDict [(''changes'', JDict [(''value'',
      JDict [(''messages'', JDict [(''from'', JStr ''+6591234567''),
               (''text'', JDict [(''body'', JStr ''hello'')])])])])])]"

subsection \<open>Rate limiting\<close>

text \<open>
  \<open>check_rate_limit\<close> on the dictionary \<open>self.message_counts\<close>. The reading
  \<open>datetime.now().timestamp()\<close> of the clock is the argument \<open>current_time\<close>, a real number
  of seconds. Nothing in the body raises, so the \<open>except\<close> branch is never taken.
\<close>

definition check_rate_limit ::
  "(string \<rightharpoonup> real list) \<Rightarrow> string \<Rightarrow> real \<Rightarrow> bool \<times> (string \<rightharpoonup> real list)" where
  "check_rate_limit message_counts user_phone current_time =
    (let counts1 = (case message_counts user_phone of
                      None \<Rightarrow> message_counts(user_phone \<mapsto> [])
                    | Some ts \<Rightarrow> message_counts);
         cutoff_time = current_time - rate_limit_window;
         kept = filter (\<lambda>timestamp. timestamp > cutoff_time)
                  (case counts1 user_phone of None \<Rightarrow> [] | Some ts \<Rightarrow> ts);
         counts2 = counts1(user_phone \<mapsto> kept)
     in if length kept \<ge> rate_limit_max_messages then (False, counts2)
        else (True, counts2(user_phone \<mapsto> kept @ [current_time])))"

subsection \<open>process\_webhook\<close>

record job =
  job_message :: string
  job_user_phone :: string
  job_session_id :: string
  job_metadata :: json

text \<open>
  The producer's state: the rate-limit dictionary, whether \<open>self.redis_client\<close> is set,
  the Redis list \<open>hlas_chat_queue\<close>, the calls of \<open>send_whatsapp_message\<close> made so far
  (recipient and text) and the log.
\<close>

record producer =
  message_counts :: "string \<rightharpoonup> real list"
  redis_client :: bool
  queue :: "job list"
  sent :: "(string \<times> string) list"
  log :: "log_level list"

text \<open>
  What one request meets outside the handler: the result of \<open>request.json()\<close>, the clock,
  and whether \<open>rpush\<close> and \<open>send_whatsapp_message\<close> raise.
\<close>

record webhook_env =
  request_json :: "exn + json"
  clock :: real
  rpush_raises :: bool
  send_raises :: bool

definition rate_limit_msg :: string where
  "rate_limit_msg = ''You're sending messages too quickly! ? Please wait a moment and try again.''"

definition queue_trouble_msg :: string where
  "queue_trouble_msg = ''I'm having trouble with my queue system. Please try again in a moment.''"

definition high_volume_msg :: string where
  "high_volume_msg = ''I'm experiencing a high volume of requests. Please try again later.''"

text \<open>
  A call \<open>send_whatsapp_message(recipient, text)\<close>: the call is recorded; the flag tells
  whether it raised. The lines that \<open>utils/whatsapp_utils.py\<close> writes through its own
  logger are not part of the handler's log.
\<close>

definition send_whatsapp_message ::
  "webhook_env \<Rightarrow> producer \<Rightarrow> string \<Rightarrow> string \<Rightarrow> bool \<times> producer" where
  "send_whatsapp_message env p recipient body =
    (send_raises env, p\<lparr>sent := sent p @ [(recipient, body)]\<rparr>)"

definition add_log :: "log_level list \<Rightarrow> producer \<Rightarrow> producer" where
  "add_log ls p = p\<lparr>log := log p @ ls\<rparr>"

fun truthy_str :: "string option \<Rightarrow> bool" where
  "truthy_str None = False"
| "truthy_str (Some s) = (s \<noteq> [])"

text \<open>
  \<open>process_webhook\<close>: the status code of the response and the producer afterwards. An
  exception anywhere in the body reaches the outer \<open>except\<close>, which logs an error and
  answers 200.
\<close>

definition process_webhook :: "webhook_env \<Rightarrow> producer \<Rightarrow> nat \<times> producer" where
  "process_webhook env p =
    (case request_json env of
       Inl e \<Rightarrow> (200, add_log [ERROR] p)
     | Inr data \<Rightarrow>
         (case extract_message_data data of
            ((message, user_phone, metadata), logs) \<Rightarrow>
              let p1 = add_log (DEBUG # logs) p in
              if truthy_str message \<and> truthy_str user_phone then
                (case check_rate_limit (message_counts p1) (the user_phone) (clock env) of
                   (allowed, counts) \<Rightarrow>
                     let p2 = p1\<lparr>message_counts := counts\<rparr> in
                     if \<not> allowed then
                       (case send_whatsapp_message env (add_log [WARNING] p2)
                               (the user_phone) rate_limit_msg of
                          (raised, p3) \<Rightarrow>
                            if raised then (200, add_log [ERROR] p3) else (200, p3))
                     else
                       let job_payload =
                             \<lparr>job_message = the message,
                              job_user_phone = the user_phone,
                              job_session_id = ''whatsapp_'' @ the user_phone,
                              job_metadata = metadata\<rparr>
                       in
                       if redis_client p2 then
                         (if rpush_raises env then
                            (case send_whatsapp_message env (add_log [ERROR] p2)
                                    (the user_phone) queue_trouble_msg of
                               (raised, p3) \<Rightarrow>
                                 if raised then (200, add_log [ERROR] p3) else (200, p3))
                          else (200, add_log [INFO] (p2\<lparr>queue := queue p2 @ [job_payload]\<rparr>)))
                       else
                         (case send_whatsapp_message env (add_log [ERROR] p2)
                                 (the user_phone) high_volume_msg of
                            (raised, p3) \<Rightarrow>
                              if raised then (200, add_log [ERROR] p3) else (200, p3)))
              else (200, p1)))"

text \<open>
  A run of webhook requests through one handler, and the clock readings at which a given
  sender was admitted by the rate limiter during a run of checks.
\<close>

fun process_webhooks :: "webhook_env list \<Rightarrow> producer \<Rightarrow> producer" where
  "process_webhooks [] p = p"
| "process_webhooks (env # envs) p = process_webhooks envs (snd (process_webhook env p))"


section \<open>worker.py\<close>

text \<open>
  The body of \<open>main_worker_loop\<close> for one decoded job, from the call of the orchestrator
  to the call of \<open>send_whatsapp_message\<close>; the result is the recipient and the text of that
  call and the session store afterwards. \<open>agents.intelligent_orchestrator\<close> is not among
  the sources: \<open>orchestrate_chat\<close> is a parameter that takes the message, the session id
  and the store and either raises or returns a text. \<open>r\<close> is the random draw of the
  fallback reply.
\<close>

definition process_job ::
  "(string \<Rightarrow> string \<Rightarrow> session_store \<Rightarrow> (exn + string) \<times> session_store) \<Rightarrow>
   nat \<Rightarrow> session_store \<Rightarrow> job \<Rightarrow> (string \<times> string) \<times> session_store" where
  "process_job orchestrate_chat r st job_data =
    (case orchestrate_chat (job_message job_data) (job_session_id job_data) st of
       (Inl e, st1) \<Rightarrow>
         (case get_fallback_response r st1 ''general_error'' (Some (job_session_id job_data)) of
            (response, st2) \<Rightarrow> ((job_user_phone job_data, response), st2))
     | (Inr response, st1) \<Rightarrow>
         (case (if response = []
                then get_fallback_response r st1 ''general_error'' (Some (job_session_id job_data))
                else (response, st1)) of
            (response1, st2) \<Rightarrow>
              let response2 = (if length response1 > 4096
                               then take 4090 response1 @ ''...''
                               else response1)
              in ((job_user_phone job_data, response2), st2)))"

section \<open>Properties of the fallback manager\<close>

lemma responses_for_cases:
  "responses_for c = Inr (
     if c = ''general_error'' then general_error_responses
     else if c = ''input_validation_error'' then input_validation_error_responses
     else if c = ''agent_error'' then agent_error_responses
     else if c = ''timeout_error'' then timeout_error_responses
     else if c = ''too_many_errors'' then too_many_errors_responses
     else if c = ''off_topic'' then off_topic_responses
     else if c = ''product_not_available'' then product_not_available_responses
     else general_error_responses)"
  by (simp add: responses_for_def fallback_responses_def)

lemma responses_for_nonempty: "responses_for c = Inr rs \<Longrightarrow> rs \<noteq> []"
  by (auto simp: responses_for_cases general_error_responses_def input_validation_error_responses_def
     agent_error_responses_def timeout_error_responses_def too_many_errors_responses_def
     off_topic_responses_def product_not_available_responses_def split: if_splits)

lemma canned_not_escalation:
  "responses_for c = Inr rs \<Longrightarrow> t \<in> set rs \<Longrightarrow> t \<notin> set escalation_responses"
  by (auto simp: responses_for_cases general_error_responses_def input_validation_error_responses_def
     agent_error_responses_def timeout_error_responses_def too_many_errors_responses_def
     off_topic_responses_def product_not_available_responses_def escalation_responses_def split: if_splits)

lemma random_choice_mem: "xs \<noteq> [] \<Longrightarrow> \<exists>x. random_choice r xs = Inr x \<and> x \<in> set xs"
  by (simp add: random_choice_def)

lemma get_session_reachable:
  "reachable st \<Longrightarrow> \<exists>s st1. get_session st sid = Inr (s, st1) \<and> error_count s = error_count_of st sid
     \<and> error_count_of st1 sid = error_count_of st sid \<and> reachable st1
     \<and> (sessions st sid \<noteq> None \<longrightarrow> st1 = st)"
  by (auto simp: get_session_def error_count_of_def new_session_def split: option.splits)

lemma increment_reachable:
  "reachable st \<Longrightarrow> \<exists>st2. increment_error_count st sid = Inr st2
     \<and> error_count_of st2 sid = error_count_of st sid + 1 \<and> reachable st2"
  by (auto simp: increment_error_count_def get_session_def error_count_of_def new_session_def split: option.splits)

lemma escalation_choice: "\<exists>t. get_escalation_response r = Inr t \<and> t \<in> set escalation_responses"
  unfolding get_escalation_response_def
  by (rule random_choice_mem) (simp add: escalation_responses_def)

lemma gfr_escalated:
  assumes "reachable st" "sid \<noteq> []"
    and "5 \<le> error_count_of st sid \<or> (error_type = ''agent_error'' \<and> 3 \<le> error_count_of st sid)"
  shows "fst (get_fallback_response r st error_type (Some sid)) \<in> set escalation_responses
       \<and> error_count_of (snd (get_fallback_response r st error_type (Some sid))) sid = error_count_of st sid
       \<and> reachable (snd (get_fallback_response r st error_type (Some sid)))
       \<and> (sessions st sid \<noteq> None \<longrightarrow> snd (get_fallback_response r st error_type (Some sid)) = st)"
proof -
  obtain s st1 where g: "get_session st sid = Inr (s, st1)" "error_count s = error_count_of st sid"
     "error_count_of st1 sid = error_count_of st sid" "reachable st1" "sessions st sid \<noteq> None \<longrightarrow> st1 = st"
    using get_session_reachable[OF assms(1)] by blast
  obtain t where t: "get_escalation_response r = Inr t" "t \<in> set escalation_responses"
    using escalation_choice by blast
  have "should_escalate st sid error_type = (True, st1)"
    using g assms(3) by (auto simp: should_escalate_def high_error_count_def repeated_failures_def)
  then have "get_fallback_response r st error_type (Some sid) = (t, st1)"
    using assms(2) t by (simp add: get_fallback_response_def)
  then show ?thesis using g t by simp
qed

lemma gfr_not_escalated:
  assumes "reachable st" "sid \<noteq> []"
    and "\<not> (5 \<le> error_count_of st sid \<or> (error_type = ''agent_error'' \<and> 3 \<le> error_count_of st sid))"
  shows "(\<exists>rs. responses_for error_type = Inr rs \<and> fst (get_fallback_response r st error_type (Some sid)) \<in> set rs)
       \<and> error_count_of (snd (get_fallback_response r st error_type (Some sid))) sid = error_count_of st sid + 1
       \<and> reachable (snd (get_fallback_response r st error_type (Some sid)))"
proof -
  obtain s st1 where g: "get_session st sid = Inr (s, st1)" "error_count s = error_count_of st sid"
     "error_count_of st1 sid = error_count_of st sid" "reachable st1"
    using get_session_reachable[OF assms(1)] by blast
  obtain rs where rs: "responses_for error_type = Inr rs" by (simp add: responses_for_cases)
  then have ne: "rs \<noteq> []" by (rule responses_for_nonempty)
  obtain t where t: "random_choice r rs = Inr t" "t \<in> set rs"
    using random_choice_mem[OF ne] by blast
  obtain st2 where i: "increment_error_count st1 sid = Inr st2"
      "error_count_of st2 sid = error_count_of st1 sid + 1" "reachable st2"
    using increment_reachable[OF g(4)] by blast
  have "should_escalate st sid error_type = (False, st1)"
    using g assms(3) by (auto simp: should_escalate_def high_error_count_def repeated_failures_def)
  then have "get_fallback_response r st error_type (Some sid) = (t, st2)"
    using assms(2) t rs i by (simp add: get_fallback_response_def)
  then show ?thesis using g t rs i by simp
qed

text \<open>
  Claim C1. A call of \<open>get_fallback_response\<close> with an error category and a (non-empty)
  session id, on a reachable session store: the escalation decision is taken on the
  \<open>error_count\<close> read before anything else happens. The call returns one of the
  human-handoff texts exactly when that count is at least 5, or the category is
  \<open>agent_error\<close> and the count is at least 3, and then the count stays as it was;
  otherwise the call returns one of the canned replies of the category (those of
  \<open>general_error\<close> for an unknown category), which is never a handoff text, and the count
  has grown by exactly 1.
\<close>

theorem get_fallback_response_escalation_decision:
  assumes "reachable st" and "sid \<noteq> []"
    and "get_fallback_response r st error_type (Some sid) = (reply, st')"
  shows "(5 \<le> error_count_of st sid \<or> (error_type = ''agent_error'' \<and> 3 \<le> error_count_of st sid)
           \<longrightarrow> reply \<in> set escalation_responses \<and> error_count_of st' sid = error_count_of st sid)
       \<and> (\<not> (5 \<le> error_count_of st sid \<or> (error_type = ''agent_error'' \<and> 3 \<le> error_count_of st sid))
           \<longrightarrow> reply \<notin> set escalation_responses
               \<and> (\<exists>rs. responses_for error_type = Inr rs \<and> reply \<in> set rs)
               \<and> error_count_of st' sid = error_count_of st sid + 1)"
  using gfr_escalated[OF assms(1,2), of error_type r] gfr_not_escalated[OF assms(1,2), of error_type r] assms(3)
    canned_not_escalation[of error_type _ reply]
  by auto


theorem get_fallback_response_escalation_decision_witness:
  "fst (get_fallback_response 1 \<lparr>sessions = Map.empty, reachable = True\<rparr> ''agent_error'' (Some ''whatsapp_+6591234567''))
      \<in> set agent_error_responses
   \<and> error_count_of (snd (get_fallback_response 1 \<lparr>sessions = Map.empty, reachable = True\<rparr> ''agent_error'' (Some ''whatsapp_+6591234567''))) ''whatsapp_+6591234567'' = 1"
  using get_fallback_response_escalation_decision[of "\<lparr>sessions = Map.empty, reachable = True\<rparr>" "''whatsapp_+6591234567''" 1 "''agent_error''"
     "fst (get_fallback_response 1 \<lparr>sessions = Map.empty, reachable = True\<rparr> ''agent_error'' (Some ''whatsapp_+6591234567''))"
     "snd (get_fallback_response 1 \<lparr>sessions = Map.empty, reachable = True\<rparr> ''agent_error'' (Some ''whatsapp_+6591234567''))"]
  by (simp add: error_count_of_def responses_for_cases)

lemma respond_calls_absorbing:
  assumes "reachable st" "sid \<noteq> []" "5 \<le> error_count_of st sid"
  shows "fst (respond_calls st (Some sid) calls) = map (\<lambda>(r, c). fst (get_fallback_response r st c (Some sid))) calls
       \<and> snd (respond_calls st (Some sid) calls) = st"
proof (induction calls)
  case Nil show ?case by simp
next
  case (Cons a calls)
  obtain r c where a: "a = (r, c)" by (cases a)
  have ex: "sessions st sid \<noteq> None" using assms(3) by (auto simp: error_count_of_def split: option.splits)
  have "snd (get_fallback_response r st c (Some sid)) = st"
    using gfr_escalated[OF assms(1,2), of c r] assms(3) ex by simp
  then show ?case using Cons a by (auto split: prod.splits)
qed


text \<open>
  Claim C3, as stated, fails: on a fresh session the third consecutive \<open>agent_error\<close>
  call is checked against the count 2 and returns a canned reply, not a handoff text.
\<close>

theorem third_agent_error_call_counterexample:
  "\<not> (fst (respond_calls \<lparr>sessions = Map.empty, reachable = True\<rparr> (Some ''whatsapp_+6591234567'')
         [(0, ''agent_error''), (0, ''agent_error''), (0, ''agent_error'')]) ! 2
       \<in> set escalation_responses)"
  by (simp add: get_fallback_response_def should_escalate_def get_session_def new_session_def
      increment_error_count_def responses_for_cases random_choice_def agent_error_responses_def
      escalation_responses_def high_error_count_def repeated_failures_def)

lemma respond_calls_Cons:
  "respond_calls st sid ((r, c) # calls) =
     (fst (get_fallback_response r st c sid) # fst (respond_calls (snd (get_fallback_response r st c sid)) sid calls),
      snd (respond_calls (snd (get_fallback_response r st c sid)) sid calls))"
  by (simp split: prod.splits)

text \<open>
  Claim C10. Escalation is absorbing and does not consume the counter: once the
  \<open>error_count\<close> of a session is at least 5 and the store is reachable, every later call
  of \<open>get_fallback_response\<close> for that session, whatever the categories and random draws,
  returns a human-handoff text, and the count (indeed the whole store) is unchanged.
\<close>

theorem escalation_absorbing:
  assumes "reachable st" and "sid \<noteq> []" and "5 \<le> error_count_of st sid"
    and "respond_calls st (Some sid) calls = (replies, st')"
  shows "length replies = length calls
       \<and> (\<forall>t \<in> set replies. t \<in> set escalation_responses)
       \<and> error_count_of st' sid = error_count_of st sid
       \<and> st' = st"
proof -
  have a: "replies = map (\<lambda>(r, c). fst (get_fallback_response r st c (Some sid))) calls" "st' = st"
    using respond_calls_absorbing[OF assms(1,2,3), of calls] assms(4) by simp_all
  have "\<And>r c. fst (get_fallback_response r st c (Some sid)) \<in> set escalation_responses"
    using gfr_escalated[OF assms(1,2)] assms(3) by blast
  then show ?thesis using a by auto
qed

theorem escalation_absorbing_witness:
  "fst (respond_calls \<lparr>sessions = [''s7'' \<mapsto> \<lparr>error_count = 5, last_error = None\<rparr>], reachable = True\<rparr> (Some ''s7'')
         [(0, ''general_error''), (1, ''off_topic'')])
     = [escalation_responses ! 0, escalation_responses ! 1]
   \<and> error_count_of (snd (respond_calls \<lparr>sessions = [''s7'' \<mapsto> \<lparr>error_count = 5, last_error = None\<rparr>], reachable = True\<rparr> (Some ''s7'')
         [(0, ''general_error''), (1, ''off_topic'')])) ''s7'' = 5"
  using escalation_absorbing[of "\<lparr>sessions = [''s7'' \<mapsto> \<lparr>error_count = 5, last_error = None\<rparr>], reachable = True\<rparr>" "''s7''"
      "[(0, ''general_error''), (1, ''off_topic'')]"
      "fst (respond_calls \<lparr>sessions = [''s7'' \<mapsto> \<lparr>error_count = 5, last_error = None\<rparr>], reachable = True\<rparr> (Some ''s7'')
         [(0, ''general_error''), (1, ''off_topic'')])"
      "snd (respond_calls \<lparr>sessions = [''s7'' \<mapsto> \<lparr>error_count = 5, last_error = None\<rparr>], reachable = True\<rparr> (Some ''s7'')
         [(0, ''general_error''), (1, ''off_topic'')])"]
  by (simp add: error_count_of_def get_fallback_response_def should_escalate_def get_session_def
      high_error_count_def get_escalation_response_def random_choice_def escalation_responses_def)

lemma agent_error_step:
  assumes "reachable st" "sid \<noteq> []" "error_count_of st sid < 3"
  shows "fst (get_fallback_response r st ''agent_error'' (Some sid)) \<in> set agent_error_responses
       \<and> fst (get_fallback_response r st ''agent_error'' (Some sid)) \<notin> set escalation_responses
       \<and> error_count_of (snd (get_fallback_response r st ''agent_error'' (Some sid))) sid = error_count_of st sid + 1
       \<and> reachable (snd (get_fallback_response r st ''agent_error'' (Some sid)))"
  using gfr_not_escalated[OF assms(1,2), of "''agent_error''" r] assms(3)
    canned_not_escalation[of "''agent_error''" agent_error_responses]
  by (auto simp: responses_for_cases)

text \<open>
  Claim C3, amended. Starting from a session whose \<open>error_count\<close> is 0, the first three
  consecutive \<open>agent_error\<close> calls return canned \<open>agent_error\<close> replies and raise the
  count to 3; it is the fourth consecutive call that returns the human-handoff text, and
  it leaves the count at 3.
\<close>

theorem fourth_agent_error_call_escalates:
  assumes "reachable st" and "sid \<noteq> []" and "error_count_of st sid = 0"
    and "respond_calls st (Some sid)
           [(r1, ''agent_error''), (r2, ''agent_error''), (r3, ''agent_error''), (r4, ''agent_error'')]
         = (replies, st')"
  shows "length replies = 4
       \<and> replies ! 0 \<in> set agent_error_responses \<and> replies ! 0 \<notin> set escalation_responses
       \<and> replies ! 1 \<in> set agent_error_responses \<and> replies ! 1 \<notin> set escalation_responses
       \<and> replies ! 2 \<in> set agent_error_responses \<and> replies ! 2 \<notin> set escalation_responses
       \<and> replies ! 3 \<in> set escalation_responses
       \<and> error_count_of st' sid = 3"
proof -
  define g1 where "g1 = get_fallback_response r1 st ''agent_error'' (Some sid)"
  define g2 where "g2 = get_fallback_response r2 (snd g1) ''agent_error'' (Some sid)"
  define g3 where "g3 = get_fallback_response r3 (snd g2) ''agent_error'' (Some sid)"
  define g4 where "g4 = get_fallback_response r4 (snd g3) ''agent_error'' (Some sid)"
  have s1: "fst g1 \<in> set agent_error_responses" "fst g1 \<notin> set escalation_responses"
      "error_count_of (snd g1) sid = 1" "reachable (snd g1)"
    using agent_error_step[OF assms(1,2), of r1] assms(3) by (simp_all add: g1_def)
  have s2: "fst g2 \<in> set agent_error_responses" "fst g2 \<notin> set escalation_responses"
      "error_count_of (snd g2) sid = 2" "reachable (snd g2)"
    using agent_error_step[OF s1(4) assms(2), of r2] s1(3) by (simp_all add: g2_def)
  have s3: "fst g3 \<in> set agent_error_responses" "fst g3 \<notin> set escalation_responses"
      "error_count_of (snd g3) sid = 3" "reachable (snd g3)"
    using agent_error_step[OF s2(4) assms(2), of r3] s2(3) by (simp_all add: g3_def)
  have s4: "fst g4 \<in> set escalation_responses" "error_count_of (snd g4) sid = 3"
    using gfr_escalated[OF s3(4) assms(2), of "''agent_error''" r4] s3(3) by (simp_all add: g4_def)
  have "replies = [fst g1, fst g2, fst g3, fst g4]" "st' = snd g4"
    using assms(4) unfolding respond_calls_Cons g1_def g2_def g3_def g4_def by simp_all
  then show ?thesis using s1 s2 s3 s4 by simp
qed

theorem fourth_agent_error_call_escalates_witness:
  "fst (respond_calls \<lparr>sessions = Map.empty, reachable = True\<rparr> (Some ''whatsapp_+6591234567'')
      [(0, ''agent_error''), (1, ''agent_error''), (2, ''agent_error''), (3, ''agent_error'')])
    = [agent_error_responses ! 0, agent_error_responses ! 1, agent_error_responses ! 2, escalation_responses ! 0]
   \<and> length (fst (respond_calls \<lparr>sessions = Map.empty, reachable = True\<rparr> (Some ''whatsapp_+6591234567'')
      [(0, ''agent_error''), (1, ''agent_error''), (2, ''agent_error''), (3, ''agent_error'')])) = 4"
  using fourth_agent_error_call_escalates[of "\<lparr>sessions = Map.empty, reachable = True\<rparr>" "''whatsapp_+6591234567''" 0 1 2 3
      "fst (respond_calls \<lparr>sessions = Map.empty, reachable = True\<rparr> (Some ''whatsapp_+6591234567'')
      [(0, ''agent_error''), (1, ''agent_error''), (2, ''agent_error''), (3, ''agent_error'')])"
      "snd (respond_calls \<lparr>sessions = Map.empty, reachable = True\<rparr> (Some ''whatsapp_+6591234567'')
      [(0, ''agent_error''), (1, ''agent_error''), (2, ''agent_error''), (3, ''agent_error'')])"]
  by (simp add: error_count_of_def get_fallback_response_def should_escalate_def get_session_def new_session_def
      increment_error_count_def responses_for_cases random_choice_def agent_error_responses_def
      escalation_responses_def high_error_count_def repeated_failures_def get_escalation_response_def)

section \<open>Properties of validation, the webhook status and the worker\<close>

lemma char_of_digits:
  "char_of (48::nat) = CHR ''0''" "char_of (49::nat) = CHR ''1''" "char_of (50::nat) = CHR ''2''"
  "char_of (51::nat) = CHR ''3''" "char_of (52::nat) = CHR ''4''" "char_of (53::nat) = CHR ''5''"
  "char_of (54::nat) = CHR ''6''" "char_of (55::nat) = CHR ''7''" "char_of (56::nat) = CHR ''8''"
  "char_of (57::nat) = CHR ''9''"
  by code_simp+

lemma is_digit_set: "is_digit c \<longleftrightarrow> c \<in> set ''0123456789''"
proof
  assume d: "is_digit c"
  define n where "n = (of_char c :: nat)"
  have c: "c = char_of n" by (simp add: n_def)
  have "n = 48 \<or> n = 49 \<or> n = 50 \<or> n = 51 \<or> n = 52 \<or> n = 53 \<or> n = 54 \<or> n = 55 \<or> n = 56 \<or> n = 57"
    using d unfolding is_digit_def n_def by arith
  then show "c \<in> set ''0123456789''"
    unfolding c using char_of_digits by auto
next
  assume "c \<in> set ''0123456789''"
  then show "is_digit c" by (auto simp: is_digit_def)
qed

text \<open>
  Claim C6, as stated, fails: a \<open>+\<close> that is not leading is kept. The identifier
  \<open>1234+5678\<close> is accepted unchanged, with \<open>+\<close> at the fifth position.
\<close>

theorem validate_phone_number_keeps_plus_counterexample:
  "validate_phone_number ''1234+5678'' = Some ''1234+5678''
   \<and> CHR ''+'' \<in> set (tl ''1234+5678'')"
  by (simp add: validate_phone_number_def is_digit_def)

text \<open>
  Claim C6, amended. For every input string, \<open>validate_phone_number\<close> keeps the digits
  and every \<open>+\<close>, wherever it stands, in their order, and removes all other characters;
  it returns \<open>None\<close> exactly when what is kept is shorter than 8 or longer than 15
  characters, and what is kept otherwise.
\<close>

theorem validate_phone_number_normalizes:
  "(validate_phone_number phone = None
      \<longleftrightarrow> length (filter (\<lambda>c. c \<in> set ''0123456789+'') phone) < 8
        \<or> length (filter (\<lambda>c. c \<in> set ''0123456789+'') phone) > 15)
   \<and> (\<forall>q. validate_phone_number phone = Some q
        \<longrightarrow> q = filter (\<lambda>c. c \<in> set ''0123456789+'') phone)"
proof -
  have "(\<lambda>c. is_digit c \<or> c = CHR ''+'') = (\<lambda>c. c \<in> set ''0123456789+'')"
    by (auto simp: is_digit_set)
  then show ?thesis by (auto simp: validate_phone_number_def Let_def)
qed

theorem validate_phone_number_normalizes_witness:
  "validate_phone_number ''+65 9123-4567'' = Some ''+6591234567''
   \<and> validate_phone_number ''12345'' = None"
  using validate_phone_number_normalizes[of "''+65 9123-4567''"] validate_phone_number_normalizes[of "''12345''"]
  by auto

text \<open>
  Claim C7. Normalisation of the sender identifier is idempotent: an identifier returned
  by \<open>validate_phone_number\<close> is accepted by it and returned unchanged.
\<close>

theorem validate_phone_number_idempotent:
  "validate_phone_number phone = Some q \<Longrightarrow> validate_phone_number q = Some q"
  by (auto simp: validate_phone_number_def Let_def split: if_splits)

theorem validate_phone_number_idempotent_witness:
  "validate_phone_number ''+65 9123-4567'' = Some ''+6591234567''
   \<and> validate_phone_number ''+6591234567'' = Some ''+6591234567''"
  using validate_phone_number_idempotent[of "''+65 9123-4567''" "''+6591234567''"]
  by (simp add: validate_phone_number_def is_digit_def)

text \<open>
  Claim C9. \<open>process_webhook\<close> answers with status 200 for every payload, every state of
  the producer and every behaviour of its surroundings: when the job is enqueued, when the
  rate limiter denies, when the payload is unparseable or a status update, when
  \<open>request.json()\<close>, \<open>rpush\<close> or \<open>send_whatsapp_message\<close> raise, and when Redis is
  not connected.
\<close>

theorem process_webhook_always_200: "fst (process_webhook env p) = 200"
  by (simp add: process_webhook_def Let_def send_whatsapp_message_def split: sum.splits prod.splits)

text \<open>
  Claim C8. When the orchestrator returns a text longer than 4096 characters, the worker
  sends its first 4090 characters followed by the three-character marker \<open>...\<close>, 4093
  characters in all; so a response of 5000 characters is sent as exactly 4093 characters
  that end in the marker.
\<close>

theorem worker_truncates_long_response:
  assumes "orchestrate_chat (job_message job_data) (job_session_id job_data) st = (Inr response, st1)"
    and "length response > 4096"
  shows "fst (process_job orchestrate_chat r st job_data)
           = (job_user_phone job_data, take 4090 response @ ''...'')
       \<and> length (snd (fst (process_job orchestrate_chat r st job_data))) = 4093
       \<and> (length response = 5000 \<longrightarrow>
            length (snd (fst (process_job orchestrate_chat r st job_data))) = 4093
            \<and> drop 4090 (snd (fst (process_job orchestrate_chat r st job_data))) = ''...'')"
proof -
  have ne: "response \<noteq> []" using assms(2) by auto
  show ?thesis using assms ne by (simp add: process_job_def)
qed

theorem worker_truncates_long_response_witness:
  "length (snd (fst (process_job (\<lambda>m s st. (Inr (replicate 5000 (CHR ''a'')), st)) 0
       \<lparr>sessions = Map.empty, reachable = True\<rparr>
       \<lparr>job_message = ''hi'', job_user_phone = ''+6591234567'',
        job_session_id = ''whatsapp_+6591234567'', job_metadata = JDict []\<rparr>))) = 4093
   \<and> drop 4090 (snd (fst (process_job (\<lambda>m s st. (Inr (replicate 5000 (CHR ''a'')), st)) 0
       \<lparr>sessions = Map.empty, reachable = True\<rparr>
       \<lparr>job_message = ''hi'', job_user_phone = ''+6591234567'',
        job_session_id = ''whatsapp_+6591234567'', job_metadata = JDict []\<rparr>))) = ''...''"
  using worker_truncates_long_response[of "\<lambda>m s st. (Inr (replicate 5000 (CHR ''a'')), st)"
       "\<lparr>job_message = ''hi'', job_user_phone = ''+6591234567'',
        job_session_id = ''whatsapp_+6591234567'', job_metadata = JDict []\<rparr>"
       "\<lparr>sessions = Map.empty, reachable = True\<rparr>" "replicate 5000 (CHR ''a'')"
       "\<lparr>sessions = Map.empty, reachable = True\<rparr>" 0]
  by simp

section \<open>Properties of message cleaning\<close>

lemma words_Nil_iff: "whitespace_words s = [] \<longleftrightarrow> (\<forall>c \<in> set s. is_space c)"
  by (induction s rule: whitespace_words.induct) auto

lemma words_dropWhile: "whitespace_words (dropWhile is_space s) = whitespace_words s"
  by (induction s) auto

lemma words_append_spaces:
  "\<forall>c \<in> set t. is_space c \<Longrightarrow> whitespace_words (s @ t) = whitespace_words s"
proof (induction s rule: whitespace_words.induct)
  case 1
  then show ?case by (simp add: words_Nil_iff)
next
  case (2 c cs)
  show ?case
  proof (cases "is_space c")
    case True
    then show ?thesis using 2 by simp
  next
    case False
    show ?thesis
    proof (cases "\<forall>x \<in> set cs. \<not> is_space x")
      case True
      have t1: "takeWhile (\<lambda>x. \<not> is_space x) t = []" using 2(3) by (cases t) auto
      have t2: "dropWhile (\<lambda>x. \<not> is_space x) t = t" using 2(3) by (cases t) auto
      have t3: "whitespace_words t = []" using 2(3) by (simp add: words_Nil_iff)
      have c1: "takeWhile (\<lambda>x. \<not> is_space x) cs = cs" using True by simp
      have c2: "dropWhile (\<lambda>x. \<not> is_space x) cs = []" using True by simp
      have c3: "takeWhile (\<lambda>x. \<not> is_space x) (cs @ t) = cs" using True t1 by simp
      have c4: "dropWhile (\<lambda>x. \<not> is_space x) (cs @ t) = t" using True t2 by simp
      show ?thesis using False by (simp add: c1 c2 c3 c4 t3)
    next
      case F2: False
      then obtain x where x: "x \<in> set cs" "is_space x" by blast
      then have a: "takeWhile (\<lambda>x. \<not> is_space x) (cs @ t) = takeWhile (\<lambda>x. \<not> is_space x) cs"
        by (intro takeWhile_append1[of x]) auto
      have b: "dropWhile (\<lambda>x. \<not> is_space x) (cs @ t) = dropWhile (\<lambda>x. \<not> is_space x) cs @ t"
        using x by (intro dropWhile_append1[of x]) auto
      show ?thesis using False a b 2(2)[OF False 2(3)] by simp
    qed
  qed
qed

lemma sub_whitespace_nonspace_prefix:
  "\<forall>c \<in> set w. \<not> is_space c \<Longrightarrow> sub_whitespace (w @ r) = w @ sub_whitespace r"
  by (induction w) auto

lemma sub_whitespace_words:
  "no_trailing_space s \<Longrightarrow> sub_whitespace (dropWhile is_space s) = join_space (whitespace_words s)"
proof (induction s rule: whitespace_words.induct)
  case 1
  then show ?case by simp
next
  case (2 c cs)
  show ?case
  proof (cases "is_space c")
    case True
    have "no_trailing_space cs" using 2(3) by (auto simp: no_trailing_space_def split: if_splits)
    then show ?thesis using True 2(1) by simp
  next
    case False
    define w where "w = takeWhile (\<lambda>x. \<not> is_space x) cs"
    define r where "r = dropWhile (\<lambda>x. \<not> is_space x) cs"
    have cs: "cs = w @ r" by (simp add: w_def r_def)
    have w: "\<forall>x \<in> set w. \<not> is_space x" unfolding w_def by (auto dest: set_takeWhileD)
    have sw: "sub_whitespace (c # cs) = c # w @ sub_whitespace r"
      using False sub_whitespace_nonspace_prefix[OF w, of r] cs by simp
    show ?thesis
    proof (cases r)
      case Nil
      then show ?thesis using False sw by (simp add: w_def[symmetric] r_def[symmetric])
    next
      case (Cons d ds)
      have d: "is_space d" using hd_dropWhile[of "\<lambda>x. \<not> is_space x" cs] Cons by (simp add: r_def[symmetric])
      have nt: "no_trailing_space r"
        using 2(3) cs Cons by (auto simp: no_trailing_space_def split: if_splits)
      have ne: "whitespace_words r \<noteq> []"
      proof -
        have "\<not> is_space (last r)" using nt Cons by (simp add: no_trailing_space_def)
        moreover have "last r \<in> set r" using Cons by simp
        ultimately show ?thesis using words_Nil_iff by blast
      qed
      have ih: "sub_whitespace (dropWhile is_space r) = join_space (whitespace_words r)"
        using 2(2)[OF False] nt by (simp add: r_def)
      have "sub_whitespace r = CHR '' '' # sub_whitespace (dropWhile is_space r)"
        using Cons d by simp
      then have "sub_whitespace (c # cs) = (c # w) @ CHR '' '' # join_space (whitespace_words r)"
        using sw ih by simp
      moreover have "join_space ((c # w) # whitespace_words r) = (c # w) @ CHR '' '' # join_space (whitespace_words r)"
        using ne by (cases "whitespace_words r") simp_all
      ultimately show ?thesis using False by (simp add: w_def[symmetric] r_def[symmetric])
    qed
  qed
qed

lemma strip_trailing:
  "s = rev (dropWhile P (rev s)) @ rev (takeWhile P (rev s))"
proof -
  have "rev (dropWhile P (rev s)) @ rev (takeWhile P (rev s))
          = rev (takeWhile P (rev s) @ dropWhile P (rev s))"
    by (simp only: rev_append)
  also have "\<dots> = rev (rev s)" by (simp only: takeWhile_dropWhile_id)
  also have "\<dots> = s" by simp
  finally show ?thesis by simp
qed

lemma py_strip_clean: "sub_whitespace (py_strip s) = spec_clean_message s"
proof -
  define d where "d = dropWhile is_space s"
  define s1 where "s1 = rev (dropWhile is_space (rev d))"
  define tr where "tr = rev (takeWhile is_space (rev d))"
  have d: "d = s1 @ tr" unfolding s1_def tr_def by (rule strip_trailing)
  have tr: "\<forall>c \<in> set tr. is_space c" unfolding tr_def by (auto dest: set_takeWhileD)
  have nt: "no_trailing_space s1"
  proof (cases "s1 = []")
    case True then show ?thesis by (simp add: no_trailing_space_def)
  next
    case False
    then have "dropWhile is_space (rev d) \<noteq> []" by (simp add: s1_def)
    then have "\<not> is_space (hd (dropWhile is_space (rev d)))" by (rule hd_dropWhile)
    moreover have "last s1 = hd (dropWhile is_space (rev d))"
      unfolding s1_def by (simp add: last_rev)
    ultimately show ?thesis by (simp add: no_trailing_space_def)
  qed
  have lead: "dropWhile is_space s1 = s1"
  proof (cases "s1 = []")
    case True then show ?thesis by simp
  next
    case False
    then have "hd s1 = hd d" using d by simp
    moreover have "d \<noteq> []" using d False by simp
    then have "\<not> is_space (hd d)" unfolding d_def by (rule hd_dropWhile)
    ultimately show ?thesis using False by (cases s1) auto
  qed
  have "whitespace_words s1 = whitespace_words d"
    using words_append_spaces[OF tr, of s1] d by simp
  also have "\<dots> = whitespace_words s" by (simp add: d_def words_dropWhile)
  finally have w: "whitespace_words s1 = whitespace_words s" .
  have "py_strip s = s1" by (simp add: py_strip_def s1_def d_def)
  then show ?thesis using sub_whitespace_words[OF nt] lead w by (simp add: spec_clean_message_def)
qed

lemma join_space_Nil_iff: "join_space ws = [] \<longleftrightarrow> ws = [] \<or> ws = [[]]"
  by (induction ws rule: join_space.induct) auto

lemma words_nonempty: "w \<in> set (whitespace_words s) \<Longrightarrow> w \<noteq> []"
  by (induction s rule: whitespace_words.induct) (auto split: if_splits)

lemma spec_clean_Nil_iff: "spec_clean_message s = [] \<longleftrightarrow> (\<forall>c \<in> set s. is_space c)"
  unfolding spec_clean_message_def join_space_Nil_iff
  using words_nonempty[of "[]" s] words_Nil_iff[of s] by auto

text \<open>
  Claim C5. For every input string, \<open>validate_and_clean_message\<close> returns \<open>None\<close>
  exactly when the input is empty or consists of whitespace only. Otherwise the cleaned
  message is the spec's: the words of the input joined by single spaces, so whitespace
  runs are collapsed and both ends are trimmed. When the cleaned message is longer than
  4096 characters it is cut to its first 4096 characters and the marker \<open>...\<close> is
  appended (the returned string then has 4099 characters); otherwise it is returned as
  it is.
\<close>

theorem validate_and_clean_message_spec:
  "(validate_and_clean_message s = None \<longleftrightarrow> (\<forall>c \<in> set s. is_space c))
   \<and> (\<not> (\<forall>c \<in> set s. is_space c) \<longrightarrow>
        validate_and_clean_message s =
          Some (if length (spec_clean_message s) > 4096
                then take 4096 (spec_clean_message s) @ ''...''
                else spec_clean_message s))"
proof (cases "\<forall>c \<in> set s. is_space c")
  case True
  then have "spec_clean_message s = []" by (simp add: spec_clean_Nil_iff)
  then show ?thesis using True
    by (simp add: validate_and_clean_message_def py_strip_clean max_message_length_def)
next
  case False
  then have ne: "spec_clean_message s \<noteq> []" by (simp add: spec_clean_Nil_iff)
  have "s \<noteq> []" using False by auto
  then show ?thesis using False ne
    by (auto simp: validate_and_clean_message_def py_strip_clean max_message_length_def Let_def)
qed

theorem validate_and_clean_message_spec_witness:
  "validate_and_clean_message ''  I  want   insurance '' = Some ''I want insurance''
   \<and> validate_and_clean_message ''   '' = None"
  using validate_and_clean_message_spec[of "''  I  want   insurance ''"]
        validate_and_clean_message_spec[of "''   ''"]
  by (simp add: spec_clean_message_def is_space_def)

section \<open>Properties of the rate limiter\<close>








lemmas extract_eval = extract_message_data_def extract_body_def status_probe_def status_update_def
  extract_user_message_def extraction_patterns_def pattern_standard_def pattern_alternative1_def
  pattern_alternative2_def read_metadata_def validate_and_clean_message_def
  validate_phone_number_def validate_and_clean_message_log_def validate_phone_number_log_def
  py_strip_def is_space_def is_digit_def max_message_length_def



section \<open>Properties of message extraction\<close>

lemma py_subscript_raises:
  "py_subscript x s = Inl e \<Longrightarrow> e = KeyError \<or> e = IndexError \<or> e = TypeError"
  by (cases x; cases s) (auto split: option.splits if_splits)

lemma py_path_raises:
  "py_path x ss = Inl e \<Longrightarrow> e = KeyError \<or> e = IndexError \<or> e = TypeError"
proof (induction ss arbitrary: x)
  case Nil
  then show ?case by simp
next
  case (Cons s ss)
  show ?case
  proof (cases "py_subscript x s")
    case (Inl e')
    then show ?thesis using Cons.prems py_subscript_raises[of x s e'] by simp
  next
    case (Inr y)
    then show ?thesis using Cons by simp
  qed
qed

lemma bind_Inl: "bind a f = Inl e \<Longrightarrow> a = Inl e \<or> (\<exists>x. a = Inr x \<and> f x = Inl e)"
  by (cases a) auto

lemma pattern_raises:
  assumes "p \<in> set extraction_patterns" and "p d = Inl e"
  shows "e = KeyError \<or> e = IndexError \<or> e = TypeError"
proof -
  have "p = pattern_standard \<or> p = pattern_alternative1 \<or> p = pattern_alternative2"
    using assms(1) by (simp add: extraction_patterns_def)
  then have "\<exists>ss1 ss2. p d = bind (py_path d ss1) (\<lambda>m. bind (py_path d ss2) (\<lambda>u. Inr (m, u)))"
    unfolding pattern_standard_def pattern_alternative1_def pattern_alternative2_def by blast
  then obtain ss1 ss2 where
    p: "p d = bind (py_path d ss1) (\<lambda>m. bind (py_path d ss2) (\<lambda>u. Inr (m, u)))" by blast
  show ?thesis
  proof (cases "py_path d ss1")
    case (Inl e1)
    then show ?thesis using p assms(2) py_path_raises[of d ss1 e1] by simp
  next
    case (Inr m)
    show ?thesis
    proof (cases "py_path d ss2")
      case (Inl e2)
      then show ?thesis using p assms(2) Inr py_path_raises[of d ss2 e2] by simp
    next
      case r2: (Inr u)
      then show ?thesis using p assms(2) Inr by simp
    qed
  qed
qed

lemma run_patterns_match:
  assumes "find (\<lambda>p. matches_shape p d) ps = Some p"
    and "\<forall>q \<in> set ps. \<forall>e. q d = Inl e \<longrightarrow> e = KeyError \<or> e = IndexError \<or> e = TypeError"
  shows "run_patterns ps d acc = p d"
  using assms
proof (induction ps arbitrary: acc)
  case Nil
  then show ?case by simp
next
  case (Cons q ps)
  show ?case
  proof (cases "matches_shape q d")
    case True
    then have "p = q" using Cons.prems(1) by simp
    then show ?thesis using True by (auto simp: matches_shape_def split: sum.splits prod.splits)
  next
    case False
    then have f: "find (\<lambda>p. matches_shape p d) ps = Some p" using Cons.prems(1) by simp
    have ih: "\<And>acc. run_patterns ps d acc = p d" using Cons.IH[OF f] Cons.prems(2) by simp
    show ?thesis
    proof (cases "q d")
      case (Inl e)
      then have "e = KeyError \<or> e = IndexError \<or> e = TypeError" using Cons.prems(2) by simp
      then show ?thesis using Inl ih by auto
    next
      case (Inr mu)
      then show ?thesis using False ih by (auto simp: matches_shape_def split: prod.splits)
    qed
  qed
qed

lemma run_patterns_no_match:
  assumes "find (\<lambda>p. matches_shape p d) ps = None"
    and "\<forall>q \<in> set ps. \<forall>e. q d = Inl e \<longrightarrow> e = KeyError \<or> e = IndexError \<or> e = TypeError"
    and "\<not> (py_truthy (fst acc) \<and> py_truthy (snd acc))"
  shows "\<exists>m u. run_patterns ps d acc = Inr (m, u) \<and> \<not> (py_truthy m \<and> py_truthy u)"
  using assms
proof (induction ps arbitrary: acc)
  case Nil
  then show ?case by (cases acc) auto
next
  case (Cons q ps)
  have nm: "\<not> matches_shape q d" and f: "find (\<lambda>p. matches_shape p d) ps = None"
    using Cons.prems(1) by (auto split: if_splits)
  have r: "\<forall>q \<in> set ps. \<forall>e. q d = Inl e \<longrightarrow> e = KeyError \<or> e = IndexError \<or> e = TypeError"
    using Cons.prems(2) by simp
  show ?case
  proof (cases "q d")
    case (Inl e)
    then have "e = KeyError \<or> e = IndexError \<or> e = TypeError" using Cons.prems(2) by simp
    then show ?thesis using Inl Cons.IH[OF f r Cons.prems(3)] by auto
  next
    case (Inr mu)
    obtain m u where mu: "mu = (m, u)" by (cases mu)
    have nt: "\<not> (py_truthy (fst (m, u)) \<and> py_truthy (snd (m, u)))"
      using nm Inr mu by (simp add: matches_shape_def)
    show ?thesis using Inr mu nt Cons.IH[OF f r nt] by auto
  qed
qed

lemma find_Some_matches: "find P ps = Some p \<Longrightarrow> P p \<and> p \<in> set ps"
  by (induction ps) (auto split: if_splits)

lemma extract_user_message_match:
  assumes "first_match data = Some (JStr m, JStr u)"
  shows "\<exists>logs md. extract_user_message data
           = (logs @ validate_and_clean_message_log m @ validate_phone_number_log u,
              Inr (validate_and_clean_message m, validate_phone_number u, md))"
proof -
  obtain p where p: "find (\<lambda>p. matches_shape p data) extraction_patterns = Some p"
      "p data = Inr (JStr m, JStr u)"
    using assms by (auto simp: first_match_def split: option.splits sum.splits)
  have t: "py_truthy (JStr m) \<and> py_truthy (JStr u)"
    using find_Some_matches[OF p(1)] p(2) by (simp add: matches_shape_def)
  have "run_patterns extraction_patterns data (JNull, JNull) = Inr (JStr m, JStr u)"
    using run_patterns_match[OF p(1)] pattern_raises p(2) by auto
  then show ?thesis using t
    by (auto simp: extract_user_message_def split: sum.splits prod.splits)
qed

lemma extract_user_message_no_match:
  assumes "find (\<lambda>p. matches_shape p data) extraction_patterns = None"
  shows "extract_user_message data = ([WARNING], Inr (None, None, JDict []))"
proof -
  obtain m u where "run_patterns extraction_patterns data (JNull, JNull) = Inr (m, u)"
      "\<not> (py_truthy m \<and> py_truthy u)"
    using run_patterns_no_match[OF assms, of "(JNull, JNull)"] pattern_raises by auto
  then show ?thesis by (auto simp: extract_user_message_def)
qed

text \<open>
  The validators run after the match. When the status check evaluates and finds no
  marker, a payload whose first matching shape yields strings is answered with the cleaned
  message and the normalised sender, either of which may be \<open>None\<close>, and the validators'
  warnings are in the log.
\<close>

lemma extract_message_data_matched:
  assumes "status_probe data = Inr v" and "py_in ''statuses'' v = Inr False"
    and "first_match data = Some (JStr m, JStr u)"
  shows "\<exists>logs md. extract_message_data data
           = ((validate_and_clean_message m, validate_phone_number u, md),
              logs @ validate_and_clean_message_log m @ validate_phone_number_log u)"
proof -
  obtain logs md where e: "extract_user_message data
           = (logs @ validate_and_clean_message_log m @ validate_phone_number_log u,
              Inr (validate_and_clean_message m, validate_phone_number u, md))"
    using extract_user_message_match[OF assms(3)] by blast
  have "extract_message_data data
          = ((validate_and_clean_message m, validate_phone_number u, md),
             logs @ validate_and_clean_message_log m @ validate_phone_number_log u)"
    using assms(1,2) e by (simp add: extract_message_data_def extract_body_def)
  then show ?thesis by blast
qed

text \<open>
  The standard payload with the five-digit sender: the shape matches, the sender is
  rejected by its validator, which logs a warning.
\<close>

lemma short_sender_rejected_after_match:
  "matches_shape pattern_standard payload_standard_short_sender
   \<and> fst (extract_message_data payload_standard_short_sender)
       = (Some ''hello'', None,
          JDict [(''message_id'', JNull), (''timestamp'', JNull), (''type'', JStr ''text''),
                 (''from_name'', JStr ''Unknown'')])
   \<and> snd (extract_message_data payload_standard_short_sender) = [WARNING]"
  by (simp add: payload_standard_short_sender_def matches_shape_def extract_eval)

text \<open>
  A payload of the first alternative format never gets as far as its pattern: there
  \<open>entry\<close> is a dictionary, the status check subscripts it with 0 and raises
  \<open>KeyError\<close>, and the outer \<open>except\<close> returns \<open>(None, None, {})\<close>.
\<close>

lemma alternative1_never_extracted:
  assumes "matches_shape pattern_alternative1 data"
  shows "extract_message_data data = ((None, None, JDict []), [ERROR])"
proof -
  obtain y where y: "py_subscript data (Key ''entry'') = Inr y"
    using assms
    by (cases "py_subscript data (Key ''entry'')")
       (auto simp: matches_shape_def pattern_alternative1_def)
  obtain z where z: "py_subscript y (Key ''changes'') = Inr z"
    using assms y
    by (cases "py_subscript y (Key ''changes'')")
       (auto simp: matches_shape_def pattern_alternative1_def)
  obtain kvs where d: "data = JDict kvs" using y by (cases data) auto
  obtain kvs' where e: "y = JDict kvs'" using z by (cases y) auto
  have "map_of kvs ''entry'' = Some (JDict kvs')"
    using y d e by (auto split: option.splits)
  then have "status_probe data = Inl KeyError"
    by (simp add: status_probe_def d)
  then show ?thesis by (simp add: extract_message_data_def extract_body_def)
qed

text \<open>
  Claim C4. The claim asks that a payload matching any of the three supported shapes is
  extracted as a non-empty pair of message and sender. The code fails it for the first
  alternative format, which its own list of patterns supports: the payload below matches
  that shape, the pattern yields the message \<open>hello\<close> and the sender \<open>+6591234567\<close>, both
  validators accept them unchanged and there is no status marker; yet
  \<open>extract_message_data\<close> returns \<open>(None, None, {})\<close> and logs an error, because the status
  check at the head of the function raises \<open>KeyError\<close> on the dictionary under \<open>entry\<close>.
\<close>

theorem alternative1_payload_not_extracted:
  "matches_shape pattern_alternative1 payload_alternative1
   \<and> first_match payload_alternative1 = Some (JStr ''hello'', JStr ''+6591234567'')
   \<and> validate_and_clean_message ''hello'' = Some ''hello''
   \<and> validate_phone_number ''+6591234567'' = Some ''+6591234567''
   \<and> \<not> has_status_marker payload_alternative1
   \<and> extract_message_data payload_alternative1 = ((None, None, JDict []), [ERROR])"
proof -
  have m: "matches_shape pattern_alternative1 payload_alternative1"
    by (simp add: payload_alternative1_def matches_shape_def pattern_alternative1_def)
  have f: "first_match payload_alternative1 = Some (JStr ''hello'', JStr ''+6591234567'')"
    by (simp add: payload_alternative1_def first_match_def matches_shape_def
        extraction_patterns_def pattern_standard_def pattern_alternative1_def)
  have v1: "validate_and_clean_message ''hello'' = Some ''hello''"
    by (simp add: validate_and_clean_message_def py_strip_def is_space_def max_message_length_def)
  have v2: "validate_phone_number ''+6591234567'' = Some ''+6591234567''"
    by (simp add: validate_phone_number_def is_digit_def)
  have s: "\<not> has_status_marker payload_alternative1"
    by (simp add: payload_alternative1_def has_status_marker_def status_probe_def)
  show ?thesis using m f v1 v2 s alternative1_never_extracted[OF m] by simp
qed

end
